theory Spec2Isabelle
  imports Main "HOL-Library.AList"
begin

section \<open>Value objects of the topic layer\<close>

text \<open>
  Modelled from the spec: the class \<open>TopicConfig\<close> of \<open>quixstreams/models/topics\<close>, which
  is not among the sources. The spec gives it the fields \<open>name\<close>, \<open>num_partitions\<close>,
  \<open>replication_factor\<close> and \<open>extra_config\<close> (a mapping of broker settings) and
  structural equality, so HOL's equality on the record is its \<open>__eq__\<close>. The field
  \<open>name\<close> is written \<open>config_name\<close> here, since \<open>Topic\<close> has a field \<open>name\<close> too.
  A dictionary is a map; an instance is always truthy, only \<open>None\<close> is falsy.
\<close>

record topic_config =
  config_name :: string
  num_partitions :: int
  replication_factor :: int
  extra_config :: "string \<rightharpoonup> string"

text \<open>
  Modelled from the spec: the constructor \<open>TopicConfig(name, num_partitions,
  replication_factor, extra_config)\<close>; a missing \<open>extra_config\<close> is the empty mapping.
\<close>

definition TopicConfig ::
  "string \<Rightarrow> int \<Rightarrow> int \<Rightarrow> (string \<rightharpoonup> string) option \<Rightarrow> topic_config" where
  "TopicConfig nm parts repl extra =
     \<lparr>config_name = nm, num_partitions = parts, replication_factor = repl,
      extra_config = (case extra of None \<Rightarrow> Map.empty | Some m \<Rightarrow> m)\<rparr>"

text \<open>
  Modelled from the spec: the method \<open>TopicConfig.update_extra_config(defaults, allowed)\<close>,
  which is not among the sources. With \<open>defaults\<close> the extra settings are merged over the
  defaults ("defaults apply first, explicit keys win"); with \<open>allowed\<close> they are filtered
  "down to the allow-listed import set". The method changes the object it is called on;
  the model returns the changed object.
\<close>

definition update_extra_config ::
  "(string \<rightharpoonup> string) option \<Rightarrow> string set option \<Rightarrow> topic_config \<Rightarrow> topic_config" where
  "update_extra_config defaults allowed cfg =
     (let c1 = (case defaults of
                  None \<Rightarrow> cfg
                | Some d \<Rightarrow> cfg\<lparr>extra_config := d ++ extra_config cfg\<rparr>)
      in (case allowed of
            None \<Rightarrow> c1
          | Some S \<Rightarrow> c1\<lparr>extra_config := extra_config c1 |` S\<rparr>))"

text \<open>
  Modelled from the spec: the class \<open>Topic\<close> of \<open>quixstreams/models/topics\<close>: a name, the
  four serialisation roles (selectors such as \<open>''bytes''\<close>, or none) and a nullable
  \<open>TopicConfig\<close>. An instance is always truthy.
\<close>

record topic =
  name :: string
  value_serializer :: "string option"
  value_deserializer :: "string option"
  key_serializer :: "string option"
  key_deserializer :: "string option"
  topic_config :: "topic_config option"

subsection \<open>Errors\<close>

text \<open>
  One entry of the \<open>issues\<close> dictionary of \<open>validate_topics\<close>: the string
  \<open>"TOPIC MISSING"\<close>, or the pair of the expected and the actual configuration.
\<close>

datatype issue = TopicMissing | Mismatch topic_config topic_config

text \<open>
  Every exception the modelled code can raise. \<open>KeyError\<close> carries the missing key,
  \<open>ValueError\<close> the names of the topics without a configuration (none when the
  dataframe raises it for an empty list of topics),
  \<open>TopicValidationError\<close> the pooled issues in the order of their first insertion,
  \<open>MissingTopicForChangelog\<close> the source topic and the changelog name of its message.
  \<open>CollaboratorError\<close> is whatever the admin client or a user function raises itself.
\<close>

datatype error =
    IndexError
  | KeyError string
  | AttributeError
  | ValueError "string list"
  | TopicValidationError "(string \<times> issue) list"
  | MissingTopicForChangelog string string
  | InvalidApplyResultType
  | CollaboratorError string

section \<open>The topic manager\<close>

text \<open>
  The admin collaborator, by its two calls. \<open>inspect_topics(names)\<close> answers with a
  dictionary from a name to a \<open>TopicConfig\<close> or \<open>None\<close> (the topic is not on the broker).
\<close>

record admin =
  admin_inspect_topics :: "string list \<Rightarrow> error + (string \<rightharpoonup> topic_config option)"
  admin_create_topics :: "topic_config list \<Rightarrow> int \<Rightarrow> error + unit"

text \<open>
  The instance state of \<open>TopicManager\<close>. The dictionaries \<open>_topics\<close> and
  \<open>_changelog_topics\<close> are association lists in insertion order
  (\<open>AList.update\<close> keeps the place of a key that is already there, as a Python
  dictionary does).
\<close>

record topic_manager =
  priv_admin_client :: admin
  priv_topics :: "(string \<times> topic) list"
  priv_changelog_topics :: "(string \<times> (string \<times> topic) list) list"
  priv_create_timeout :: int

definition init_manager :: "admin \<Rightarrow> int \<Rightarrow> topic_manager" where
  "init_manager adm timeout =
     \<lparr>priv_admin_client = adm, priv_topics = [], priv_changelog_topics = [],
      priv_create_timeout = timeout\<rparr>"

subsection \<open>Reading the registries\<close>

text \<open>
  The argument of \<open>dict_values\<close>: a dictionary (of further such objects), a list, or any
  other object (a leaf). The registries hold \<open>Topic\<close> objects at their leaves.
\<close>

datatype 'a pyobj = Dict "(string \<times> 'a pyobj) list" | PyList "'a list" | Leaf 'a

text \<open>
  \<open>dict_values\<close> flattens nested dictionaries to the list of their leaves. Its guard
  \<open>if d\<close> sends a falsy argument (an empty dictionary, an empty list) to the empty list;
  a \<open>Topic\<close> leaf is always truthy.
\<close>

fun dict_values :: "'a pyobj \<Rightarrow> 'a list" where
  "dict_values (Dict kvs) = concat (map (\<lambda>kv. dict_values (snd kv)) kvs)"
| "dict_values (PyList xs) = xs"
| "dict_values (Leaf x) = [x]"

definition topics :: "topic_manager \<Rightarrow> topic list" where
  "topics tm = dict_values (Dict (map (\<lambda>(k, t). (k, Leaf t)) (priv_topics tm)))"

definition changelog_topics :: "topic_manager \<Rightarrow> topic list" where
  "changelog_topics tm =
     dict_values (Dict (map (\<lambda>(k, inner). (k, Dict (map (\<lambda>(s, t). (s, Leaf t)) inner)))
                            (priv_changelog_topics tm)))"

text \<open>
  The argument \<open>Union[List[Topic], List[TopicConfig]]\<close> of \<open>get_topic_configs\<close>,
  \<open>create_topics\<close> and \<open>validate_topics\<close>.
\<close>

datatype topics_arg = Topics "topic list" | Configs "topic_config list"

definition arg_names :: "topics_arg \<Rightarrow> string list" where
  "arg_names ts = (case ts of Topics tps \<Rightarrow> map name tps | Configs cfgs \<Rightarrow> map config_name cfgs)"

text \<open>
  \<open>get_topic_configs\<close> reads \<open>topics[0]\<close> first, which raises \<open>IndexError\<close> on an empty
  list. For a list of topics it raises \<open>ValueError\<close> with the names of all topics whose
  configuration is \<open>None\<close>; past that check every configuration is there.
\<close>

definition get_topic_configs :: "topics_arg \<Rightarrow> error + topic_config list" where
  "get_topic_configs ts =
     (case ts of
        Topics tps \<Rightarrow>
          (if tps = [] then Inl IndexError
           else (let invalid = map name (filter (\<lambda>t. topic_config t = None) tps)
                 in if invalid \<noteq> [] then Inl (ValueError invalid)
                    else Inr (List.map_filter topic_config tps)))
      | Configs cfgs \<Rightarrow> (if cfgs = [] then Inl IndexError else Inr cfgs))"

definition all_topic_configs :: "topic_manager \<Rightarrow> error + topic_config list" where
  "all_topic_configs tm = get_topic_configs (Topics (topics tm @ changelog_topics tm))"

subsection \<open>Building configurations\<close>

definition topic_partitions :: int where
  "topic_partitions = 2"

definition topic_replication :: int where
  "topic_replication = 1"

definition topic_extra_config_defaults :: "string \<rightharpoonup> string" where
  "topic_extra_config_defaults = Map.empty"

definition changelog_extra_config_defaults :: "string \<rightharpoonup> string" where
  "changelog_extra_config_defaults = [''cleanup.policy'' \<mapsto> ''compact'']"

definition changelog_extra_config_imports_defaults :: "string set" where
  "changelog_extra_config_imports_defaults = {''retention.bytes'', ''retention.ms''}"

text \<open>Python's \<open>x or d\<close> on an optional integer: \<open>None\<close> and \<open>0\<close> are falsy.\<close>

definition py_or :: "int option \<Rightarrow> int \<Rightarrow> int" where
  "py_or x d = (case x of None \<Rightarrow> d | Some v \<Rightarrow> (if v = 0 then d else v))"

definition topic_config_with_defaults ::
  "string \<Rightarrow> int option \<Rightarrow> int option \<Rightarrow> (string \<rightharpoonup> string) option \<Rightarrow>
   (string \<rightharpoonup> string) option \<Rightarrow> topic_config" where
  "topic_config_with_defaults nm parts repl extra extra_config_defaults =
     (let cfg = TopicConfig nm (py_or parts topic_partitions) (py_or repl topic_replication) extra;
          defaults = (case extra_config_defaults of
                        None \<Rightarrow> topic_extra_config_defaults
                      | Some d \<Rightarrow> d)
      in update_extra_config (Some defaults) None cfg)"

definition process_topic_configs ::
  "string \<Rightarrow> topic_config option \<Rightarrow> (string \<rightharpoonup> string) option \<Rightarrow> bool \<Rightarrow>
   topic_config option" where
  "process_topic_configs nm cfg extra_config_defaults auto_create_config =
     (case cfg of
        Some c \<Rightarrow>
          Some (topic_config_with_defaults nm (Some (num_partitions c))
                  (Some (replication_factor c)) (Some (extra_config c)) extra_config_defaults)
      | None \<Rightarrow>
          (if \<not> auto_create_config then None
           else Some (topic_config_with_defaults nm None None None extra_config_defaults)))"

definition apply_topic_prefix :: "string \<Rightarrow> string" where
  "apply_topic_prefix nm = nm"

subsection \<open>Registering topics\<close>

text \<open>
  \<open>TopicManager.topic\<close>: the arguments in the order of the source. It returns the new
  \<open>Topic\<close> and the manager with \<open>_topics[name] = topic\<close> done.
\<close>

definition topic ::
  "topic_manager \<Rightarrow> string \<Rightarrow> string option \<Rightarrow> string option \<Rightarrow> string option \<Rightarrow>
   string option \<Rightarrow> topic_config option \<Rightarrow> bool \<Rightarrow> topic \<times> topic_manager" where
  "topic tm nm value_deser key_deser value_ser key_ser cfg auto_create_config =
     (let nm' = apply_topic_prefix nm;
          t = \<lparr>name = nm', value_serializer = value_ser, value_deserializer = value_deser,
               key_serializer = key_ser, key_deserializer = key_deser,
               topic_config = process_topic_configs nm' cfg None auto_create_config\<rparr>
      in (t, tm\<lparr>priv_topics := AList.update nm' t (priv_topics tm)\<rparr>))"

definition format_changelog_name :: "string \<Rightarrow> string \<Rightarrow> string \<Rightarrow> string" where
  "format_changelog_name consumer_group source_topic_name suffix =
     ''changelog__'' @ consumer_group @ ''--'' @ source_topic_name @ ''--'' @ suffix"

subsection \<open>Changelog topics\<close>

text \<open>
  The expression
  \<open>inspect_topics([source])[source] or self._topics[source].topic_config\<close>.
  The subscript on the admin's answer raises \<open>KeyError\<close> when the name is not a key of
  it; the right operand is evaluated only when the broker's entry is \<open>None\<close>, and its
  subscript raises \<open>KeyError\<close> when the topic was never registered. The flag tells
  whether the result is the registered topic's own configuration object.
\<close>

definition source_topic_config ::
  "topic_manager \<Rightarrow> string \<Rightarrow> error + (topic_config option \<times> bool)" where
  "source_topic_config tm source_topic_name =
     (case admin_inspect_topics (priv_admin_client tm) [source_topic_name] of
        Inl e \<Rightarrow> Inl e
      | Inr response \<Rightarrow>
          (case response source_topic_name of
             None \<Rightarrow> Inl (KeyError source_topic_name)
           | Some (Some c) \<Rightarrow> Inr (Some c, False)
           | Some None \<Rightarrow>
               (case map_of (priv_topics tm) source_topic_name of
                  None \<Rightarrow> Inl (KeyError source_topic_name)
                | Some t \<Rightarrow> Inr (topic_config t, True))))"

text \<open>
  The set the import filter uses: the caller's set, or the class default when the caller
  gave \<open>None\<close> or an empty set, with \<open>''cleanup.policy''\<close> discarded.
\<close>

definition import_set :: "string set option \<Rightarrow> string set" where
  "import_set configs_to_import =
     (case configs_to_import of
        None \<Rightarrow> changelog_extra_config_imports_defaults
      | Some S \<Rightarrow> (if S = {} then changelog_extra_config_imports_defaults else S))
     - {''cleanup.policy''}"

text \<open>
  What \<open>changelog_topic\<close> leaves in the set object the caller passed: \<open>discard\<close> works on
  the caller's own set when that set is not empty (an empty one is replaced by the class
  default before the \<open>discard\<close>).
\<close>

definition caller_set_after :: "string set option \<Rightarrow> string set option" where
  "caller_set_after configs_to_import =
     (case configs_to_import of
        None \<Rightarrow> None
      | Some S \<Rightarrow> Some (if S = {} then S else S - {''cleanup.policy''}))"

text \<open>
  \<open>TopicManager.changelog_topic\<close>. The first component is the state of the caller's
  \<open>configs_to_import\<close> object after the call (the \<open>discard\<close> comes before anything that
  can raise); the second is the exception, or the new \<open>Topic\<close> and the manager after
  the call. \<open>update_extra_config(allowed=...)\<close> changes the resolved configuration
  object itself: when that object belongs to the registered source topic, the registry
  entry shows the change.
\<close>

definition changelog_topic ::
  "topic_manager \<Rightarrow> string \<Rightarrow> string \<Rightarrow> string \<Rightarrow> string set option \<Rightarrow>
   string set option \<times> (error + topic \<times> topic_manager)" where
  "changelog_topic tm source_topic_name suffix consumer_group configs_to_import =
     (let nm = format_changelog_name consumer_group source_topic_name suffix;
          imports = import_set configs_to_import
      in (caller_set_after configs_to_import,
          (case source_topic_config tm source_topic_name of
             Inl e \<Rightarrow> Inl e
           | Inr (None, own) \<Rightarrow> Inl (MissingTopicForChangelog source_topic_name nm)
           | Inr (Some c, own) \<Rightarrow>
               (let c' = update_extra_config None (Some imports) c;
                    tm1 = (if own
                           then tm\<lparr>priv_topics :=
                                  AList.map_entry source_topic_name
                                    (\<lambda>t. t\<lparr>topic_config := Some c'\<rparr>) (priv_topics tm)\<rparr>
                           else tm);
                    t = \<lparr>name = nm, value_serializer = Some ''bytes'',
                         value_deserializer = Some ''bytes'', key_serializer = Some ''bytes'',
                         key_deserializer = Some ''bytes'',
                         topic_config =
                           process_topic_configs nm (Some c')
                             (Some changelog_extra_config_defaults) True\<rparr>;
                    inner = (case map_of (priv_changelog_topics tm1) source_topic_name of
                               None \<Rightarrow> []
                             | Some d \<Rightarrow> d)
                in Inr (t, tm1\<lparr>priv_changelog_topics :=
                                AList.update source_topic_name (AList.update suffix t inner)
                                  (priv_changelog_topics tm1)\<rparr>)))))"

subsection \<open>Creating and validating topics\<close>

definition priv_create_topics :: "topic_manager \<Rightarrow> topic_config list \<Rightarrow> error + unit" where
  "priv_create_topics tm cfgs =
     admin_create_topics (priv_admin_client tm) cfgs (priv_create_timeout tm)"

definition create_topics :: "topic_manager \<Rightarrow> topics_arg \<Rightarrow> error + unit" where
  "create_topics tm tps =
     (case get_topic_configs tps of Inl e \<Rightarrow> Inl e | Inr cfgs \<Rightarrow> priv_create_topics tm cfgs)"

definition create_all_topics :: "topic_manager \<Rightarrow> error + unit" where
  "create_all_topics tm =
     (case all_topic_configs tm of Inl e \<Rightarrow> Inl e | Inr cfgs \<Rightarrow> priv_create_topics tm cfgs)"

text \<open>
  An issue holds \<open>actual.__dict__\<close>, the live attribute dictionary of the broker's object:
  a later assignment to that object shows in an issue recorded earlier under its name.
\<close>

definition refresh_actual :: "string \<Rightarrow> topic_config \<Rightarrow> (string \<times> issue) list \<Rightarrow> (string \<times> issue) list" where
  "refresh_actual nm a issues =
     map (\<lambda>(k, i). (k, (case i of
                          TopicMissing \<Rightarrow> TopicMissing
                        | Mismatch e old \<Rightarrow> (if k = nm then Mismatch e a else Mismatch e old))))
         issues"

text \<open>
  The loop of \<open>validate_topics\<close> over the expected configurations, with the admin's
  answer (whose objects the loop changes) and the issues collected so far. The subscript
  \<open>actual_configs[topic.name]\<close> comes first and raises \<open>KeyError\<close> for a name that is not
  a key; the membership test follows it. An entry that is \<open>None\<close> has no attribute
  \<open>extra_config\<close> and no method \<open>update_extra_config\<close>: \<open>AttributeError\<close>.
\<close>

fun validate_loop ::
  "bool \<Rightarrow> bool \<Rightarrow> (string \<rightharpoonup> topic_config option) \<Rightarrow> (string \<times> issue) list \<Rightarrow>
   topic_config list \<Rightarrow> error + (string \<times> issue) list" where
  "validate_loop exists_only extras actual_configs issues [] = Inr issues"
| "validate_loop exists_only extras actual_configs issues (t # ts) =
     (case actual_configs (config_name t) of
        None \<Rightarrow> Inl (KeyError (config_name t))
      | Some actual \<Rightarrow>
          (if config_name t \<in> dom actual_configs
           then (if \<not> exists_only
                 then (case actual of
                         None \<Rightarrow> Inl AttributeError
                       | Some a \<Rightarrow>
                           (let a' = (if extras
                                      then update_extra_config None
                                             (Some (dom (extra_config t))) a
                                      else a\<lparr>extra_config := extra_config t\<rparr>);
                                issues1 = refresh_actual (config_name t) a' issues;
                                issues2 = (if t \<noteq> a'
                                           then AList.update (config_name t) (Mismatch t a') issues1
                                           else issues1)
                            in validate_loop exists_only extras
                                 (actual_configs(config_name t \<mapsto> Some a')) issues2 ts))
                 else validate_loop exists_only extras actual_configs issues ts)
           else validate_loop exists_only extras actual_configs
                  (AList.update (config_name t) TopicMissing issues) ts))"

text \<open>
  \<open>validate_topics\<close>: a falsy level (\<open>None\<close> or the empty string) skips the validation.
  The admin is asked once, with the names of all topics, before \<open>get_topic_configs\<close>
  reads the list.
\<close>

definition validate_topics :: "topic_manager \<Rightarrow> topics_arg \<Rightarrow> string option \<Rightarrow> error + unit" where
  "validate_topics tm tps validation_level =
     (if validation_level = None \<or> validation_level = Some []
      then Inr ()
      else (let exists_only = (validation_level = Some ''exists'');
                extras = (validation_level = Some ''all'')
            in (case admin_inspect_topics (priv_admin_client tm) (arg_names tps) of
                  Inl e \<Rightarrow> Inl e
                | Inr actual_configs \<Rightarrow>
                    (case get_topic_configs tps of
                       Inl e \<Rightarrow> Inl e
                     | Inr cfgs \<Rightarrow>
                         (case validate_loop exists_only extras actual_configs [] cfgs of
                            Inl e \<Rightarrow> Inl e
                          | Inr issues \<Rightarrow>
                              (if issues \<noteq> [] then Inl (TopicValidationError issues)
                               else Inr ()))))))"

text \<open>
  \<open>validate_all_topics\<close> evaluates the argument \<open>self.all_topic_configs\<close> before it calls
  \<open>validate_topics\<close>, whatever the level.
\<close>

definition validate_all_topics :: "topic_manager \<Rightarrow> string option \<Rightarrow> error + unit" where
  "validate_all_topics tm validation_level =
     (case all_topic_configs tm of
        Inl e \<Rightarrow> Inl e
      | Inr cfgs \<Rightarrow> validate_topics tm (Configs cfgs) validation_level)"

section \<open>Rows, pipelines and the dataframe\<close>

text \<open>
  A dynamically typed value of a row or of a user function's result.
\<close>

datatype pyval =
    PNone
  | PBool bool
  | PInt int
  | PStr string
  | PBytes string
  | PDict "(string \<times> pyval) list"
  | PList "pyval list"

fun is_dict :: "pyval \<Rightarrow> bool" where
  "is_dict (PDict d) = True"
| "is_dict v = False"

fun is_list :: "pyval \<Rightarrow> bool" where
  "is_list (PList xs) = True"
| "is_list v = False"

text \<open>
  Modelled from the spec: the class \<open>Row\<close> of \<open>models\<close>, which is not among the sources:
  the \<open>value\<close> and the provenance fields \<open>key\<close>, \<open>timestamp\<close>, \<open>headers\<close>, \<open>topic\<close>,
  \<open>partition\<close> and \<open>offset\<close>, each written with the prefix \<open>row_\<close>.
\<close>

record row =
  row_value :: pyval
  row_key :: pyval
  row_timestamp :: int
  row_headers :: "(string \<times> string) list"
  row_topic :: string
  row_partition :: int
  row_offset :: int

text \<open>
  Modelled from the spec: \<open>Row.clone(value=v)\<close>, a copy of the row with the value
  overridden ("a step explicitly clones with overrides").
\<close>

definition row_clone :: "row \<Rightarrow> pyval \<Rightarrow> row" where
  "row_clone r v = r\<lparr>row_value := v\<rparr>"

text \<open>What a step returns: \<open>None\<close> (the row is filtered), a row, or a list of rows.\<close>

datatype outcome = Absent | Single row | Branch "row list"

type_synonym step = "row \<Rightarrow> error + outcome"

text \<open>
  A user function of \<open>apply\<close> receives the row's value, may change it in place, and
  returns a result or raises: the model gives it the value and takes back the exception,
  or the value as the call left it together with the result.
\<close>

type_synonym user_fn = "pyval \<Rightarrow> error + pyval \<times> pyval"

text \<open>
  The function \<open>apply(row, func, expand)\<close> of the dataframe module, the body of the step
  that \<open>StreamingDataFrame.apply\<close> appends.
\<close>

definition apply_row :: "row \<Rightarrow> user_fn \<Rightarrow> bool \<Rightarrow> error + outcome" where
  "apply_row r func expand =
     (case func (row_value r) of
        Inl e \<Rightarrow> Inl e
      | Inr (v, result) \<Rightarrow>
          (let r1 = r\<lparr>row_value := v\<rparr>
           in if result = PNone \<and> is_dict (row_value r1) then Inr (Single r1)
              else (case result of
                      PDict d \<Rightarrow> Inr (Single (r1\<lparr>row_value := result\<rparr>))
                    | PList xs \<Rightarrow>
                        (if expand then Inr (Branch (map (row_clone r1) xs))
                         else Inl InvalidApplyResultType)
                    | other \<Rightarrow> Inl InvalidApplyResultType)))"

subsection \<open>Pipelines\<close>

text \<open>
  Modelled from the spec: the class \<open>Pipeline\<close> of \<open>dataframe/pipeline.py\<close>, which is not
  among the sources: a name and an ordered sequence of steps. Pipelines are objects
  that several dataframes can refer to, so they live in a heap; a reference is an index
  below the heap's length, given out by \<open>pipeline_new\<close> and \<open>pipeline_clone\<close>.
\<close>

record pipeline =
  pipeline_name :: string
  steps :: "step list"

type_synonym heap = "pipeline list"

definition pipeline_new :: "heap \<Rightarrow> string \<Rightarrow> nat \<times> heap" where
  "pipeline_new h nm = (length h, h @ [\<lparr>pipeline_name = nm, steps = []\<rparr>])"

text \<open>
  Modelled from the spec: \<open>Pipeline.apply(step)\<close> "appends a unary transform to the
  chain" and "mutates pipeline state in place".
\<close>

definition pipeline_apply :: "heap \<Rightarrow> nat \<Rightarrow> step \<Rightarrow> heap" where
  "pipeline_apply h p f = h[p := (h ! p)\<lparr>steps := steps (h ! p) @ [f]\<rparr>]"

text \<open>
  Modelled from the spec: \<open>Pipeline.clone()\<close> "returns a new Pipeline whose current steps
  are the same reference sequence; steps appended after cloning affect only the clone
  that received them".
\<close>

definition pipeline_clone :: "heap \<Rightarrow> nat \<Rightarrow> nat \<times> heap" where
  "pipeline_clone h p = (length h, h @ [h ! p])"

text \<open>The rows an outcome stands for when the results of a branch are flattened.\<close>

fun rows_of :: "outcome \<Rightarrow> row list" where
  "rows_of Absent = []"
| "rows_of (Single r) = [r]"
| "rows_of (Branch rs) = rs"

text \<open>
  Modelled from the spec: \<open>Pipeline.process(record)\<close> "folds the record through the step
  chain in order": an absent outcome stops, a single row continues, a list branches
  (each element continues through the remaining steps, depth first and left to right,
  and the results are flattened). An exception of a step propagates.
\<close>

fun run_steps :: "step list \<Rightarrow> row \<Rightarrow> error + outcome"
  and run_branch :: "step list \<Rightarrow> row list \<Rightarrow> error + row list" where
  "run_steps [] r = Inr (Single r)"
| "run_steps (f # fs) r =
     (case f r of
        Inl e \<Rightarrow> Inl e
      | Inr Absent \<Rightarrow> Inr Absent
      | Inr (Single r') \<Rightarrow> run_steps fs r'
      | Inr (Branch rs) \<Rightarrow>
          (case run_branch fs rs of Inl e \<Rightarrow> Inl e | Inr out \<Rightarrow> Inr (Branch out)))"
| "run_branch fs [] = Inr []"
| "run_branch fs (r # rs) =
     (case run_steps fs r of
        Inl e \<Rightarrow> Inl e
      | Inr res \<Rightarrow>
          (case run_branch fs rs of Inl e \<Rightarrow> Inl e | Inr out \<Rightarrow> Inr (rows_of res @ out)))"

definition pipeline_process :: "heap \<Rightarrow> nat \<Rightarrow> row \<Rightarrow> error + outcome" where
  "pipeline_process h p r = run_steps (steps (h ! p)) r"

subsection \<open>The dataframe over a pipeline\<close>

text \<open>
  \<open>StreamingDataFrame\<close> of the Python client: a name, a reference to its pipeline and
  its topics by name.
\<close>

record streaming_dataframe =
  sdf_name :: string
  sdf_pipeline :: nat
  sdf_topics :: "(string \<times> topic) list"

text \<open>
  \<open>__init__(topics, name, _pipeline)\<close>. \<open>fresh\<close> stands for the \<open>str(uuid.uuid4())\<close> the
  constructor draws when no name is given. A pipeline is made when none is given, before
  the check of the topics.
\<close>

definition sdf_init ::
  "heap \<Rightarrow> string \<Rightarrow> topic list \<Rightarrow> string option \<Rightarrow> nat option \<Rightarrow>
   error + streaming_dataframe \<times> heap" where
  "sdf_init h fresh tps nm pl =
     (let nm' = (case nm of None \<Rightarrow> fresh | Some n \<Rightarrow> (if n = [] then fresh else n));
          (p, h') = (case pl of None \<Rightarrow> pipeline_new h nm' | Some q \<Rightarrow> (q, h))
      in if tps = [] then Inl (ValueError [])
         else Inr (\<lparr>sdf_name = nm', sdf_pipeline = p,
                    sdf_topics = fold (\<lambda>t. AList.update (name t) t) tps []\<rparr>, h'))"

definition sdf_apply_priv :: "heap \<Rightarrow> streaming_dataframe \<Rightarrow> step \<Rightarrow> streaming_dataframe \<times> heap" where
  "sdf_apply_priv h df f = (df, pipeline_apply h (sdf_pipeline df) f)"

definition sdf_clone ::
  "heap \<Rightarrow> string \<Rightarrow> streaming_dataframe \<Rightarrow> error + streaming_dataframe \<times> heap" where
  "sdf_clone h fresh df =
     (let (q, h') = pipeline_clone h (sdf_pipeline df)
      in sdf_init h' fresh (map snd (sdf_topics df)) None (Some q))"

definition sdf_apply ::
  "heap \<Rightarrow> string \<Rightarrow> streaming_dataframe \<Rightarrow> step \<Rightarrow> error + streaming_dataframe \<times> heap" where
  "sdf_apply h fresh df f =
     (case sdf_clone h fresh df of
        Inl e \<Rightarrow> Inl e
      | Inr (df', h') \<Rightarrow> Inr (sdf_apply_priv h' df' f))"

definition sdf_process :: "heap \<Rightarrow> streaming_dataframe \<Rightarrow> row \<Rightarrow> error + outcome" where
  "sdf_process h df r = pipeline_process h (sdf_pipeline df) r"

section \<open>Concrete collaborators and inputs\<close>

text \<open>
  An admin client over a fixed broker state: \<open>inspect_topics(names)\<close> answers with one
  entry per requested name, the topic's configuration or \<open>None\<close>; \<open>create_topics\<close>
  succeeds.
\<close>

definition broker_admin :: "(string \<Rightarrow> topic_config option) \<Rightarrow> admin" where
  "broker_admin broker =
     \<lparr>admin_inspect_topics = (\<lambda>names. Inr (map_of (map (\<lambda>n. (n, broker n)) names))),
      admin_create_topics = (\<lambda>cfgs timeout. Inr ())\<rparr>"

definition empty_broker :: "string \<Rightarrow> topic_config option" where
  "empty_broker nm = None"

definition orders_config :: topic_config where
  "orders_config =
     TopicConfig ''orders'' 4 3
       (Some [''cleanup.policy'' \<mapsto> ''delete'', ''retention.ms'' \<mapsto> ''1000''])"

definition orders_broker :: "string \<Rightarrow> topic_config option" where
  "orders_broker nm = (if nm = ''orders'' then Some orders_config else None)"

definition orders_manager :: topic_manager where
  "orders_manager = init_manager (broker_admin orders_broker) 60"

definition orders_expected :: topic_config where
  "orders_expected = TopicConfig ''orders'' 4 3 (Some [''retention.ms'' \<mapsto> ''1000''])"

definition payments_config :: topic_config where
  "payments_config = TopicConfig ''payments'' 2 1 None"

definition payments_expected :: topic_config where
  "payments_expected = TopicConfig ''payments'' 8 1 None"

definition orders_retention_2000 :: topic_config where
  "orders_retention_2000 = TopicConfig ''orders'' 4 3 (Some [''retention.ms'' \<mapsto> ''2000''])"

definition shop_broker :: "string \<Rightarrow> topic_config option" where
  "shop_broker nm =
     (if nm = ''orders'' then Some orders_config
      else if nm = ''payments'' then Some payments_config else None)"

definition shop_manager :: topic_manager where
  "shop_manager = init_manager (broker_admin shop_broker) 60"

text \<open>
  A manager on which one topic was declared with \<open>auto_create_config=False\<close> and no
  configuration.
\<close>

definition external_manager :: topic_manager where
  "external_manager =
     snd (topic (init_manager (broker_admin empty_broker) 60) ''external''
            None (Some ''bytes'') None (Some ''bytes'') None False)"

text \<open>A row, and user functions of each kind of result.\<close>

definition sample_row :: row where
  "sample_row = \<lparr>row_value = PDict [(''x'', PInt 5)], row_key = PStr ''k'', row_timestamp = 0,
                  row_headers = [], row_topic = ''orders'', row_partition = 0, row_offset = 7\<rparr>"

definition fn_in_place :: user_fn where
  "fn_in_place v = Inr (PDict [(''x'', PInt 6)], PNone)"

definition fn_list :: user_fn where
  "fn_list v = Inr (v, PList [PDict [(''a'', PInt 1)], PDict [(''a'', PInt 2)]])"

definition fn_int :: user_fn where
  "fn_int v = Inr (v, PInt 3)"

definition fn_dict :: user_fn where
  "fn_dict v = Inr (v, PDict [(''y'', PInt 1)])"

text \<open>
  A step that leaves its mark in the row's headers, so that a processed row shows which
  steps it went through, and the heap of the scenario: a pipeline with step \<open>A\<close> is
  cloned, the original gets step \<open>C\<close>, the clone step \<open>B\<close>.
\<close>

definition mark :: "string \<Rightarrow> step" where
  "mark s r = Inr (Single (r\<lparr>row_headers := row_headers r @ [(s, [])]\<rparr>))"

definition branched_heap :: heap where
  "branched_heap =
     (let (p, h) = pipeline_new [] ''df'';
          h1 = pipeline_apply h p (mark ''A'');
          (q, h2) = pipeline_clone h1 p;
          h3 = pipeline_apply h2 p (mark ''C'')
      in pipeline_apply h3 q (mark ''B''))"

section \<open>The invariant of the topic registry\<close>

text \<open>
  \<open>_topics\<close> is a dictionary, so its keys are distinct, and \<open>topic\<close>, the only writer of
  its keys, stores every \<open>Topic\<close> under the topic's own name.
\<close>

definition registry_ok :: "topic_manager \<Rightarrow> bool" where
  "registry_ok tm =
     (distinct (map fst (priv_topics tm)) \<and> list_all (\<lambda>(k, t). name t = k) (priv_topics tm))"

section \<open>The comparison of the validation\<close>

text \<open>
  The comparison \<open>validate_topics\<close> makes above level \<open>exists\<close>: the expected
  configuration \<open>t\<close> equals the broker's object \<open>a\<close> after the loop has adjusted it (at
  level \<open>all\<close> the broker's extra settings filtered to the keys of \<open>t\<close>, otherwise
  replaced by those of \<open>t\<close>).
\<close>

definition conforms :: "bool \<Rightarrow> topic_config \<Rightarrow> topic_config \<Rightarrow> bool" where
  "conforms extras t a =
     (t = (if extras then update_extra_config None (Some (dom (extra_config t))) a
           else a\<lparr>extra_config := extra_config t\<rparr>))"

section \<open>Properties\<close>

lemmas changelog_defs =
  changelog_topic_def source_topic_config_def import_set_def caller_set_after_def
  process_topic_configs_def topic_config_with_defaults_def update_extra_config_def
  TopicConfig_def py_or_def format_changelog_name_def Let_def

lemmas example_defs =
  init_manager_def broker_admin_def orders_broker_def orders_config_def empty_broker_def
  changelog_extra_config_defaults_def changelog_extra_config_imports_defaults_def
  topic_partitions_def topic_replication_def

subsection \<open>Registering a name twice\<close>

lemma dict_values_Nil: "dict_values (Dict []) = []"
  by simp

lemma dict_values_Cons: "dict_values (Dict (kv # kvs)) = dict_values (snd kv) @ dict_values (Dict kvs)"
  by simp

lemma dict_values_leaves:
  "dict_values (Dict (map (\<lambda>(k, t). (k, Leaf t)) xs)) = map snd xs"
  by (induction xs) (auto split: prod.splits)

lemma topics_eq: "topics tm = map snd (priv_topics tm)"
  by (simp only: topics_def dict_values_leaves)

lemma dict_values_nested:
  "dict_values (Dict (map (\<lambda>(k, inner). (k, Dict (map (\<lambda>(s, t). (s, Leaf t)) inner))) ys))
   = concat (map (\<lambda>(k, inner). map snd inner) ys)"
proof (induction ys)
  case Nil
  show ?case by simp
next
  case (Cons y ys)
  obtain k inner where y: "y = (k, inner)" by (cases y)
  have "dict_values (Dict (map (\<lambda>(k, inner). (k, Dict (map (\<lambda>(s, t). (s, Leaf t)) inner))) (y # ys)))
        = dict_values (Dict (map (\<lambda>(s, t). (s, Leaf t)) inner))
          @ dict_values (Dict (map (\<lambda>(k, inner). (k, Dict (map (\<lambda>(s, t). (s, Leaf t)) inner))) ys))"
    by (simp only: y list.map prod.case dict_values_Cons snd_conv)
  also have "\<dots> = map snd inner @ concat (map (\<lambda>(k, inner). map snd inner) ys)"
    by (simp only: dict_values_leaves Cons.IH)
  finally show ?case by (simp add: y)
qed

lemma changelog_topics_eq:
  "changelog_topics tm = concat (map (\<lambda>(k, inner). map snd inner) (priv_changelog_topics tm))"
  by (simp only: changelog_topics_def dict_values_nested)

lemma filter_update_named:
  assumes "distinct (map fst xs)" and "list_all (\<lambda>(k, t). name t = k) xs" and "name t = nm"
  shows "filter (\<lambda>u. name u = nm) (map snd (AList.update nm t xs)) = [t]"
  using assms
proof (induction xs)
  case Nil
  then show ?case by simp
next
  case (Cons p xs)
  obtain k v where p: "p = (k, v)" by (cases p)
  show ?case
  proof (cases "k = nm")
    case True
    with Cons.prems p have "nm \<notin> fst ` set xs" by auto
    moreover from Cons.prems(2) have "\<forall>q\<in>set xs. name (snd q) = fst q"
      by (auto simp: list_all_iff)
    ultimately have "\<forall>q\<in>set xs. name (snd q) \<noteq> nm"
      by (metis image_eqI)
    then have "filter (\<lambda>u. name u = nm) (map snd xs) = []"
      by (auto simp: filter_empty_conv)
    with True p Cons.prems(3) show ?thesis by simp
  next
    case False
    with Cons p show ?thesis by auto
  qed
qed

lemma registry_ok_init: "registry_ok (init_manager adm timeout)"
  by (simp add: registry_ok_def init_manager_def)

lemma list_all_update:
  "list_all P xs \<Longrightarrow> P (k, v) \<Longrightarrow> list_all P (AList.update k v xs)"
  by (induction xs) auto

lemma registry_ok_topic:
  assumes "registry_ok tm" and "topic tm nm vd kd vs ks cfg auto_create = (t, tm')"
  shows "registry_ok tm'"
  using assms
  by (auto simp: registry_ok_def topic_def Let_def distinct_update intro!: list_all_update)

text \<open>
  \<open>changelog_topic\<close> changes the configuration of a registered topic at most, so it
  keeps the invariant too.
\<close>

lemma map_fst_map_entry: "map fst (AList.map_entry k f xs) = map fst xs"
  by (induction xs) auto

lemma list_all_map_entry:
  "list_all (\<lambda>(k, t). name t = k) xs \<Longrightarrow> (\<And>t. name (f t) = name t) \<Longrightarrow>
   list_all (\<lambda>(k, t). name t = k) (AList.map_entry k f xs)"
  by (induction xs) auto

lemma registry_ok_changelog_topic:
  assumes "registry_ok tm" and "changelog_topic tm s x g cfg = (S', Inr (t, tm'))"
  shows "registry_ok tm'"
  using assms
  by (auto simp: registry_ok_def changelog_topic_def Let_def map_fst_map_entry
           intro!: list_all_map_entry split: sum.splits option.splits prod.splits if_splits)


lemma length_update_same:
  "k \<in> fst ` set xs \<Longrightarrow> length (AList.update k v xs) = length xs"
  by (induction xs) auto

text \<open>
  Claim C7. After two calls of \<open>topic\<close> with the same name, the second on the manager
  the first left, the \<open>topics\<close> property holds exactly one entry of that (final) name,
  and it is the \<open>Topic\<close> the second call returned; the registry maps the name to it,
  and the second call did not add an entry.
\<close>

theorem topic_last_writer_wins:
  assumes ok: "registry_ok tm"
    and first: "topic tm nm vd1 kd1 vs1 ks1 cfg1 auto1 = (t1, tm1)"
    and second: "topic tm1 nm vd2 kd2 vs2 ks2 cfg2 auto2 = (t2, tm2)"
  shows "filter (\<lambda>u. name u = apply_topic_prefix nm) (topics tm2) = [t2] \<and>
         map_of (priv_topics tm2) (apply_topic_prefix nm) = Some t2 \<and>
         length (topics tm2) = length (topics tm1)"
proof -
  have ok1: "registry_ok tm1" using ok first by (rule registry_ok_topic)
  have n2: "name t2 = apply_topic_prefix nm"
    using second by (auto simp: topic_def Let_def)
  have reg2: "priv_topics tm2 = AList.update (apply_topic_prefix nm) t2 (priv_topics tm1)"
    using second by (auto simp: topic_def Let_def)
  have reg1: "priv_topics tm1 = AList.update (apply_topic_prefix nm) t1 (priv_topics tm)"
    using first by (auto simp: topic_def Let_def)
  have "apply_topic_prefix nm \<in> fst ` set (priv_topics tm1)"
    by (simp add: reg1 dom_update)
  then have len: "length (topics tm2) = length (topics tm1)"
    by (simp add: topics_eq reg2 length_update_same)
  have "filter (\<lambda>u. name u = apply_topic_prefix nm) (topics tm2) = [t2]"
    using ok1 n2 by (simp add: topics_eq reg2 registry_ok_def filter_update_named)
  moreover have "map_of (priv_topics tm2) (apply_topic_prefix nm) = Some t2"
    by (simp add: reg2 update_conv')
  ultimately show ?thesis using len by simp
qed

theorem topic_last_writer_wins_witness:
  "\<exists>t1 tm1 t2 tm2.
     registry_ok orders_manager \<and>
     topic orders_manager ''orders'' None (Some ''bytes'') None (Some ''bytes'') None True
       = (t1, tm1) \<and>
     topic tm1 ''orders'' (Some ''json'') (Some ''bytes'') None (Some ''bytes'')
       (Some orders_config) True = (t2, tm2) \<and>
     value_deserializer t1 = None \<and> value_deserializer t2 = Some ''json'' \<and>
     filter (\<lambda>u. name u = ''orders'') (topics tm2) = [t2] \<and>
     length (topics tm2) = 1"
proof -
  obtain t1 tm1 where
    e1: "topic orders_manager ''orders'' None (Some ''bytes'') None (Some ''bytes'') None True
           = (t1, tm1)"
    by (cases "topic orders_manager ''orders'' None (Some ''bytes'') None (Some ''bytes'') None True")
  obtain t2 tm2 where
    e2: "topic tm1 ''orders'' (Some ''json'') (Some ''bytes'') None (Some ''bytes'')
           (Some orders_config) True = (t2, tm2)"
    by (cases "topic tm1 ''orders'' (Some ''json'') (Some ''bytes'') None (Some ''bytes'')
                 (Some orders_config) True")
  have ok: "registry_ok orders_manager"
    unfolding orders_manager_def by (rule registry_ok_init)
  have d1: "value_deserializer t1 = None"
    using e1 by (auto simp: topic_def Let_def)
  have d2: "value_deserializer t2 = Some ''json''"
    using e2 by (auto simp: topic_def Let_def)
  have l1: "length (topics tm1) = 1"
    using e1 by (auto simp: topic_def Let_def topics_eq orders_manager_def init_manager_def)
  from topic_last_writer_wins [OF ok e1 e2] l1
  have "filter (\<lambda>u. name u = ''orders'') (topics tm2) = [t2] \<and> length (topics tm2) = 1"
    by (simp add: apply_topic_prefix_def)
  with ok e1 e2 d1 d2 show ?thesis
    by blast
qed

subsection \<open>Topics without a configuration\<close>

text \<open>
  Claim C10. When a \<open>Topic\<close> registered on the manager (an ordinary or a changelog
  topic) has no configuration, \<open>all_topic_configs\<close> raises \<open>ValueError\<close> with a list of
  names that holds the topic's name, and so do \<open>create_all_topics\<close> and
  \<open>validate_all_topics\<close> at every level: nothing is skipped and no partial result
  is returned.
\<close>

theorem null_config_raises_value_error:
  assumes "t \<in> set (topics tm @ changelog_topics tm)" and "topic_config t = None"
  shows "\<exists>invalid. name t \<in> set invalid \<and>
           all_topic_configs tm = Inl (ValueError invalid) \<and>
           create_all_topics tm = Inl (ValueError invalid) \<and>
           validate_all_topics tm validation_level = Inl (ValueError invalid)"
proof -
  let ?all = "topics tm @ changelog_topics tm"
  let ?invalid = "map name (filter (\<lambda>t. topic_config t = None) ?all)"
  have ne: "?all \<noteq> []" using assms(1) by auto
  have mem: "name t \<in> set ?invalid" using assms by auto
  then have "?invalid \<noteq> []" by (metis empty_iff list.set(1))
  with ne have "all_topic_configs tm = Inl (ValueError ?invalid)"
    by (simp add: all_topic_configs_def get_topic_configs_def Let_def)
  with mem show ?thesis
    by (auto simp: create_all_topics_def validate_all_topics_def)
qed

theorem null_config_raises_value_error_witness:
  "fst (topic (init_manager (broker_admin empty_broker) 60) ''external''
          None (Some ''bytes'') None (Some ''bytes'') None False)
     \<in> set (topics external_manager @ changelog_topics external_manager) \<and>
   all_topic_configs external_manager = Inl (ValueError [''external'']) \<and>
   create_all_topics external_manager = Inl (ValueError [''external'']) \<and>
   validate_all_topics external_manager None = Inl (ValueError [''external''])"
proof -
  let ?t = "fst (topic (init_manager (broker_admin empty_broker) 60) ''external''
                   None (Some ''bytes'') None (Some ''bytes'') None False)"
  have mem: "?t \<in> set (topics external_manager @ changelog_topics external_manager)"
    by (simp add: external_manager_def topic_def Let_def topics_eq init_manager_def
                  apply_topic_prefix_def)
  have null: "topic_config ?t = None"
    by (simp add: topic_def Let_def process_topic_configs_def)
  have all: "all_topic_configs external_manager = Inl (ValueError [''external''])"
    by (simp add: all_topic_configs_def get_topic_configs_def topics_eq changelog_topics_eq
                  external_manager_def topic_def Let_def init_manager_def
                  apply_topic_prefix_def process_topic_configs_def)
  from null_config_raises_value_error [OF mem null, of None] all mem show ?thesis
    by auto
qed

subsection \<open>Validation of a topic the broker does not have\<close>

lemma fst_refresh_actual: "map fst (refresh_actual nm a issues) = map fst issues"
  by (induction issues) (auto simp: refresh_actual_def split: issue.splits)

lemma keys_refresh_actual: "fst ` set (refresh_actual nm a issues) = fst ` set issues"
proof -
  have "fst ` set (refresh_actual nm a issues) = set (map fst (refresh_actual nm a issues))"
    by simp
  also have "\<dots> = set (map fst issues)"
    by (simp only: fst_refresh_actual)
  finally show ?thesis
    by simp
qed

lemma validate_loop_exists_only:
  "validate_loop True extras ac issues ts = Inr out \<Longrightarrow> out = issues"
  by (induction ts arbitrary: issues) (auto split: option.splits if_splits)

lemma validate_loop_error:
  "validate_loop exists_only extras ac issues ts = Inl e \<Longrightarrow>
   e = AttributeError \<or> (\<exists>k. e = KeyError k)"
  by (induction ts arbitrary: ac issues) (auto simp: Let_def split: option.splits if_splits)

text \<open>
  The loop records \<open>TOPIC MISSING\<close> for no topic at any level: the branch that
  would do so is reached only for a name that is not a key of the admin's answer, and
  for such a name the subscript before it has raised \<open>KeyError\<close>.
\<close>

lemma missing_refresh_actual:
  "(n, TopicMissing) \<in> set (refresh_actual nm a issues) \<Longrightarrow> (n, TopicMissing) \<in> set issues"
  by (induction issues) (auto simp: refresh_actual_def split: issue.splits if_splits)

lemma missing_update_mismatch:
  "(n, TopicMissing) \<in> set (AList.update k (Mismatch e a) issues) \<Longrightarrow>
   (n, TopicMissing) \<in> set issues"
  by (induction issues) (auto split: if_splits)

lemma validate_loop_never_missing:
  "validate_loop exists_only extras ac issues ts = Inr out \<Longrightarrow>
   (n, TopicMissing) \<in> set out \<Longrightarrow> (n, TopicMissing) \<in> set issues"
proof (induction ts arbitrary: ac issues)
  case Nil
  then show ?case by simp
next
  case (Cons t ts)
  from Cons.prems(1) obtain actual where ac: "ac (config_name t) = Some actual"
    by (auto split: option.splits)
  show ?case
  proof (cases exists_only)
    case True
    with Cons ac show ?thesis by (auto simp: domIff)
  next
    case False
    with Cons.prems(1) ac obtain a where a: "actual = Some a"
      by (auto simp: domIff split: option.splits)
    from Cons.prems(1) ac a False Cons.prems(2) Cons.IH show ?thesis
      by (auto simp: domIff Let_def split: if_splits
               dest!: missing_update_mismatch missing_refresh_actual)
  qed
qed

text \<open>
  At level \<open>exists\<close> the loop records nothing, so \<open>validate_topics\<close> raises
  \<open>TopicValidationError\<close> for no list of topics and no answer of the admin client.
\<close>

lemma validate_topics_exists_never_reports:
  assumes "admin_inspect_topics (priv_admin_client tm) (arg_names tps) = Inr response"
  shows "validate_topics tm tps (Some ''exists'') \<noteq> Inl (TopicValidationError issues)"
proof
  assume raised: "validate_topics tm tps (Some ''exists'') = Inl (TopicValidationError issues)"
  show False
  proof (cases "get_topic_configs tps")
    case (Inl e)
    then have "e = IndexError \<or> (\<exists>ns. e = ValueError ns)"
      by (auto simp: get_topic_configs_def Let_def split: topics_arg.splits if_splits)
    with raised assms Inl show False
      by (auto simp: validate_topics_def)
  next
    case (Inr cfgs)
    show False
    proof (cases "validate_loop True False response [] cfgs")
      case (Inl e)
      from validate_loop_error [OF Inl] raised assms Inr Inl show False
        by (auto simp: validate_topics_def)
    next
      case Inr2: (Inr out)
      from validate_loop_exists_only [OF Inr2] raised assms Inr Inr2 show False
        by (auto simp: validate_topics_def)
    qed
  qed
qed

text \<open>
  Claim C2, at the input where the code leaves it: the broker has no topic \<open>orders\<close>, so
  the admin's answer maps the name to \<open>None\<close>. At level \<open>exists\<close> \<open>validate_topics\<close>
  returns without an exception; at the levels \<open>required\<close> and \<open>all\<close> it raises
  \<open>AttributeError\<close>. At no level is the topic recorded as \<open>TOPIC MISSING\<close> and
  \<open>TopicValidationError\<close> raised.
\<close>

theorem validate_topics_missing_topic_not_reported:
  "validate_topics (init_manager (broker_admin empty_broker) 60)
     (Configs [orders_config]) (Some ''exists'') = Inr () \<and>
   validate_topics (init_manager (broker_admin empty_broker) 60)
     (Configs [orders_config]) (Some ''required'') = Inl AttributeError \<and>
   validate_topics (init_manager (broker_admin empty_broker) 60)
     (Configs [orders_config]) (Some ''all'') = Inl AttributeError"
  by (simp add: validate_topics_def get_topic_configs_def arg_names_def example_defs
                TopicConfig_def)

subsection \<open>Extra settings the caller did not declare\<close>

text \<open>
  Claim C3 as stated fails: the broker's \<open>orders\<close> topic has the setting
  \<open>cleanup.policy\<close>, which the expected configuration does not declare, and agrees with
  it in every other field; validation at level \<open>all\<close> returns without an exception, so
  it records no issue for the topic.
\<close>

theorem validate_all_ignores_undeclared_key:
  "extra_config orders_config ''cleanup.policy'' = Some ''delete'' \<and>
   extra_config orders_expected ''cleanup.policy'' = None \<and>
   config_name orders_config = config_name orders_expected \<and>
   num_partitions orders_config = num_partitions orders_expected \<and>
   replication_factor orders_config = replication_factor orders_expected \<and>
   extra_config orders_config ''retention.ms'' = extra_config orders_expected ''retention.ms'' \<and>
   validate_topics orders_manager (Configs [orders_expected]) (Some ''all'') = Inr ()"
  by (simp add: validate_topics_def get_topic_configs_def arg_names_def example_defs
                TopicConfig_def orders_manager_def orders_expected_def
                update_extra_config_def refresh_actual_def)

lemma restrict_own_dom: "m |` dom m = m"
  by (auto simp: restrict_map_def fun_eq_iff domIff)

lemma conforms_self: "conforms extras t t"
  by (simp add: conforms_def update_extra_config_def restrict_own_dom)

lemma conforms_fields:
  assumes "config_name a = config_name t" and "num_partitions a = num_partitions t"
    and "replication_factor a = replication_factor t"
    and "extra_config a |` dom (extra_config t) = extra_config t"
  shows "conforms extras t a"
  using assms by (simp add: conforms_def update_extra_config_def)

lemma validate_loop_conforming:
  assumes "validate_loop False extras ac issues ts = Inr out"
    and "\<exists>a. ac (config_name t) = Some (Some a) \<and> conforms extras t a"
    and "\<forall>u\<in>set ts. config_name u = config_name t \<longrightarrow> u = t"
    and "config_name t \<notin> fst ` set issues"
  shows "config_name t \<notin> fst ` set out"
  using assms
proof (induction ts arbitrary: ac issues)
  case Nil
  then show ?case by simp
next
  case (Cons u ts)
  from Cons.prems(1) obtain b where b: "ac (config_name u) = Some (Some b)"
    by (auto split: option.splits if_splits)
  define b' where "b' = (if extras then update_extra_config None (Some (dom (extra_config u))) b
                         else b\<lparr>extra_config := extra_config u\<rparr>)"
  define issues2 where "issues2 = (if u \<noteq> b'
       then AList.update (config_name u) (Mismatch u b') (refresh_actual (config_name u) b' issues)
       else refresh_actual (config_name u) b' issues)"
  have step: "validate_loop False extras (ac(config_name u \<mapsto> Some b')) issues2 ts = Inr out"
    using Cons.prems(1) b by (auto simp: b'_def issues2_def Let_def domIff split: if_splits)
  have rest: "\<forall>v\<in>set ts. config_name v = config_name t \<longrightarrow> v = t"
    using Cons.prems(3) by simp
  show ?case
  proof (cases "config_name u = config_name t")
    case True
    with Cons.prems(3) have ut: "u = t" by simp
    from Cons.prems(2) b ut have "conforms extras t b" by auto
    then have "t = b'" by (simp only: conforms_def b'_def ut)
    then have bt: "b' = t" by (rule sym)
    have keys: "config_name t \<notin> fst ` set issues2"
      using Cons.prems(4) bt ut
      by (simp add: issues2_def keys_refresh_actual)
    have "\<exists>a. (ac(config_name u \<mapsto> Some b')) (config_name t) = Some (Some a) \<and> conforms extras t a"
      using bt ut by (simp add: conforms_self)
    from Cons.IH [OF step this rest keys] show ?thesis .
  next
    case False
    have keys: "config_name t \<notin> fst ` set issues2"
      using Cons.prems(4) False
      by (simp add: issues2_def dom_update keys_refresh_actual)
    have "\<exists>a. (ac(config_name u \<mapsto> Some b')) (config_name t) = Some (Some a) \<and> conforms extras t a"
      using Cons.prems(2) False by simp
    from Cons.IH [OF step this rest keys] show ?thesis .
  qed
qed

text \<open>
  The two levels above \<open>exists\<close> on a topic whose broker entry is a configuration: at
  level \<open>required\<close> the broker's extra settings are replaced by the expected ones before
  the comparison, so name, partitions and replication factor decide alone; at level
  \<open>all\<close> they are filtered to the keys the expected configuration declares.
\<close>

lemma conforms_required:
  assumes "config_name a = config_name t" and "num_partitions a = num_partitions t"
    and "replication_factor a = replication_factor t"
  shows "conforms False t a"
  using assms by (simp add: conforms_def)

lemma validate_topics_above_exists:
  assumes "admin_inspect_topics (priv_admin_client tm) (map config_name cfgs) = Inr response"
    and "cfgs \<noteq> []" and "level \<noteq> []" and "level \<noteq> ''exists''"
  shows "validate_topics tm (Configs cfgs) (Some level) =
      (case validate_loop False (level = ''all'') response [] cfgs of
         Inl e \<Rightarrow> Inl e
       | Inr issues \<Rightarrow> if issues \<noteq> [] then Inl (TopicValidationError issues) else Inr ())"
  using assms
  by (simp add: validate_topics_def arg_names_def get_topic_configs_def Let_def)

lemma validate_conforming_topic:
  assumes inspect: "admin_inspect_topics (priv_admin_client tm) (map config_name cfgs) = Inr response"
    and mem: "t \<in> set cfgs"
    and only: "\<forall>u\<in>set cfgs. config_name u = config_name t \<longrightarrow> u = t"
    and actual: "response (config_name t) = Some (Some a)"
    and lv: "level \<noteq> []" "level \<noteq> ''exists''"
    and conf: "conforms (level = ''all'') t a"
  shows "(\<forall>issues. validate_topics tm (Configs cfgs) (Some level) = Inl (TopicValidationError issues)
            \<longrightarrow> config_name t \<notin> fst ` set issues) \<and>
         (cfgs = [t] \<longrightarrow> validate_topics tm (Configs cfgs) (Some level) = Inr ())"
proof -
  let ?ex = "level = ''all''"
  have ne: "cfgs \<noteq> []" using mem by auto
  note unfold = validate_topics_above_exists [OF inspect ne lv]
  have part1: "config_name t \<notin> fst ` set issues"
    if "validate_topics tm (Configs cfgs) (Some level) = Inl (TopicValidationError issues)" for issues
  proof -
    from that unfold have "validate_loop False ?ex response [] cfgs = Inr issues"
      by (auto split: sum.splits if_splits dest: validate_loop_error)
    from validate_loop_conforming [OF this _ only] actual conf show ?thesis
      by auto
  qed
  have part2: "validate_topics tm (Configs cfgs) (Some level) = Inr ()" if "cfgs = [t]"
  proof -
    have "t = (if ?ex then update_extra_config None (Some (dom (extra_config t))) a
               else a\<lparr>extra_config := extra_config t\<rparr>)"
      using conf by (simp add: conforms_def)
    then show ?thesis
      using unfold that actual
      by (simp add: Let_def domIff refresh_actual_def)
  qed
  from part1 part2 show ?thesis by blast
qed

lemma validate_all_flags_declared_key:
  assumes inspect: "admin_inspect_topics (priv_admin_client tm) [config_name t] = Inr response"
    and actual: "response (config_name t) = Some (Some a)"
    and differs: "extra_config a |` dom (extra_config t) \<noteq> extra_config t"
  shows "validate_topics tm (Configs [t]) (Some ''all'') =
           Inl (TopicValidationError
                  [(config_name t,
                    Mismatch t (a\<lparr>extra_config := extra_config a |` dom (extra_config t)\<rparr>))])"
proof -
  have inspect': "admin_inspect_topics (priv_admin_client tm) (map config_name [t]) = Inr response"
    using inspect by simp
  have ne: "t \<noteq> a\<lparr>extra_config := extra_config a |` dom (extra_config t)\<rparr>"
  proof
    assume "t = a\<lparr>extra_config := extra_config a |` dom (extra_config t)\<rparr>"
    then have "extra_config t = extra_config (a\<lparr>extra_config := extra_config a |` dom (extra_config t)\<rparr>)"
      by (rule arg_cong)
    with differs show False by simp
  qed
  have "validate_loop False True response [] [t] =
          Inr [(config_name t, Mismatch t (a\<lparr>extra_config := extra_config a |` dom (extra_config t)\<rparr>))]"
    using actual ne
    by (simp add: Let_def domIff refresh_actual_def update_extra_config_def)
  then show ?thesis
    using validate_topics_above_exists [OF inspect', of "''all''"] by simp
qed

text \<open>
  Claim C3 as amended. Take a list of expected configurations in which \<open>t\<close> is the only
  one of its name, and a broker whose topic of that name agrees with \<open>t\<close> in name,
  partitions and replication factor. At level \<open>required\<close> no issue is recorded for
  \<open>t\<close>, whatever the extra settings of \<open>t\<close> and of the broker are (and the call returns
  without an exception when \<open>t\<close> is the only topic validated). At level \<open>all\<close>, when
  \<open>t\<close> declares at least one extra setting and the broker agrees with \<open>t\<close> on every
  setting \<open>t\<close> declares, no issue is recorded for \<open>t\<close> either, also when the broker has
  further settings; and when \<open>t\<close> is validated alone and the broker differs from \<open>t\<close>
  on a declared setting, the mismatch is recorded and raised.
\<close>

theorem validate_undeclared_key_not_flagged:
  assumes inspect: "admin_inspect_topics (priv_admin_client tm) (map config_name cfgs) = Inr response"
    and mem: "t \<in> set cfgs"
    and only: "\<forall>u\<in>set cfgs. config_name u = config_name t \<longrightarrow> u = t"
    and actual: "response (config_name t) = Some (Some a)"
    and fields: "config_name a = config_name t" "num_partitions a = num_partitions t"
      "replication_factor a = replication_factor t"
  shows "(\<forall>issues. validate_topics tm (Configs cfgs) (Some ''required'')
                      = Inl (TopicValidationError issues)
            \<longrightarrow> config_name t \<notin> fst ` set issues) \<and>
         (cfgs = [t] \<longrightarrow> validate_topics tm (Configs cfgs) (Some ''required'') = Inr ()) \<and>
         (extra_config t \<noteq> Map.empty \<and>
          extra_config a |` dom (extra_config t) = extra_config t \<longrightarrow>
            (\<forall>issues. validate_topics tm (Configs cfgs) (Some ''all'')
                        = Inl (TopicValidationError issues)
               \<longrightarrow> config_name t \<notin> fst ` set issues) \<and>
            (cfgs = [t] \<longrightarrow> validate_topics tm (Configs cfgs) (Some ''all'') = Inr ())) \<and>
         (cfgs = [t] \<and> extra_config a |` dom (extra_config t) \<noteq> extra_config t \<longrightarrow>
            validate_topics tm (Configs cfgs) (Some ''all'') =
              Inl (TopicValidationError
                     [(config_name t,
                       Mismatch t (a\<lparr>extra_config := extra_config a |` dom (extra_config t)\<rparr>))]))"
proof -
  have req: "conforms (''required'' = ''all'') t a"
    using conforms_required [OF fields] by simp
  note r = validate_conforming_topic [OF inspect mem only actual _ _ req]
  have a: "(\<forall>issues. validate_topics tm (Configs cfgs) (Some ''all'')
                        = Inl (TopicValidationError issues)
               \<longrightarrow> config_name t \<notin> fst ` set issues) \<and>
            (cfgs = [t] \<longrightarrow> validate_topics tm (Configs cfgs) (Some ''all'') = Inr ())"
    if "extra_config a |` dom (extra_config t) = extra_config t"
  proof -
    have "conforms (''all'' = ''all'') t a"
      using conforms_fields [OF fields that, of True] by simp
    from validate_conforming_topic [OF inspect mem only actual _ _ this] show ?thesis
      by simp
  qed
  have f: "validate_topics tm (Configs cfgs) (Some ''all'') =
              Inl (TopicValidationError
                     [(config_name t,
                       Mismatch t (a\<lparr>extra_config := extra_config a |` dom (extra_config t)\<rparr>))])"
    if "cfgs = [t]" and "extra_config a |` dom (extra_config t) \<noteq> extra_config t"
  proof -
    have "admin_inspect_topics (priv_admin_client tm) [config_name t] = Inr response"
      using inspect that(1) by simp
    from validate_all_flags_declared_key
           [where tm = tm and t = t and response = response and a = a, OF this actual that(2)]
    show ?thesis
      using that(1) by simp
  qed
  from r a f show ?thesis
    by simp
qed


lemmas validate_defs =
  validate_topics_def get_topic_configs_def arg_names_def update_extra_config_def
  refresh_actual_def TopicConfig_def

text \<open>
  What level \<open>all\<close> adds to level \<open>required\<close>: a declared key whose value differs on
  the broker.
\<close>

lemma validate_levels_differ_on_declared_key:
  "(\<exists>a. validate_topics orders_manager (Configs [orders_retention_2000]) (Some ''all'')
      = Inl (TopicValidationError [(''orders'', Mismatch orders_retention_2000 a)])) \<and>
   validate_topics orders_manager (Configs [orders_retention_2000]) (Some ''required'') = Inr ()"
  by (simp add: validate_defs example_defs orders_manager_def orders_retention_2000_def fun_eq_iff)

theorem validate_undeclared_key_not_flagged_witness:
  "(\<exists>issues.
      validate_topics shop_manager (Configs [orders_expected, payments_expected]) (Some ''all'')
        = Inl (TopicValidationError issues) \<and>
      ''orders'' \<notin> fst ` set issues \<and> ''payments'' \<in> fst ` set issues) \<and>
   extra_config orders_config ''cleanup.policy'' = Some ''delete'' \<and>
   extra_config orders_expected ''cleanup.policy'' = None \<and>
   extra_config orders_config ''retention.ms'' = Some ''1000'' \<and>
   extra_config orders_retention_2000 ''retention.ms'' = Some ''2000'' \<and>
   validate_topics orders_manager (Configs [orders_retention_2000]) (Some ''required'') = Inr () \<and>
   (\<exists>a. validate_topics orders_manager (Configs [orders_retention_2000]) (Some ''all'')
          = Inl (TopicValidationError [(''orders'', Mismatch orders_retention_2000 a)]))"
proof -
  let ?cfgs = "[orders_expected, payments_expected]"
  have inspect: "admin_inspect_topics (priv_admin_client shop_manager) (map config_name ?cfgs)
        = Inr (map_of (map (\<lambda>n. (n, shop_broker n)) (map config_name ?cfgs)))"
    by (simp add: shop_manager_def init_manager_def broker_admin_def)
  have mem: "orders_expected \<in> set ?cfgs" by simp
  have only: "\<forall>u\<in>set ?cfgs. config_name u = config_name orders_expected \<longrightarrow> u = orders_expected"
    by (simp add: orders_expected_def payments_expected_def TopicConfig_def)
  have actual: "map_of (map (\<lambda>n. (n, shop_broker n)) (map config_name ?cfgs))
                  (config_name orders_expected) = Some (Some orders_config)"
    by (simp add: orders_expected_def payments_expected_def TopicConfig_def shop_broker_def)
  have f1: "config_name orders_config = config_name orders_expected"
    and f2: "num_partitions orders_config = num_partitions orders_expected"
    and f3: "replication_factor orders_config = replication_factor orders_expected"
    by (simp_all add: orders_expected_def orders_config_def TopicConfig_def)
  have nonempty: "extra_config orders_expected \<noteq> Map.empty"
    by (simp add: orders_expected_def TopicConfig_def)
  have declared: "extra_config orders_config |` dom (extra_config orders_expected)
                  = extra_config orders_expected"
    by (simp add: orders_expected_def orders_config_def TopicConfig_def)
  note inst1 = validate_undeclared_key_not_flagged [OF inspect mem only actual f1 f2 f3]
  have "\<exists>a. validate_topics shop_manager (Configs ?cfgs) (Some ''all'')
          = Inl (TopicValidationError [(''payments'', Mismatch payments_expected a)])"
    by (simp add: validate_defs example_defs shop_manager_def shop_broker_def
                  orders_expected_def payments_expected_def payments_config_def fun_eq_iff)
  then obtain a where
    res: "validate_topics shop_manager (Configs ?cfgs) (Some ''all'')
            = Inl (TopicValidationError [(''payments'', Mismatch payments_expected a)])"
    by blast
  from inst1 nonempty declared res
  have "config_name orders_expected \<notin> fst ` set [(''payments'', Mismatch payments_expected a)]"
    by blast
  then have "''orders'' \<notin> fst ` set [(''payments'', Mismatch payments_expected a)]"
    by (simp add: orders_expected_def TopicConfig_def)
  with res have part1: "\<exists>issues.
      validate_topics shop_manager (Configs ?cfgs) (Some ''all'')
        = Inl (TopicValidationError issues) \<and>
      ''orders'' \<notin> fst ` set issues \<and> ''payments'' \<in> fst ` set issues"
    by auto
  let ?t = orders_retention_2000
  have inspect2: "admin_inspect_topics (priv_admin_client orders_manager) (map config_name [?t])
        = Inr (map_of (map (\<lambda>n. (n, orders_broker n)) (map config_name [?t])))"
    by (simp add: orders_manager_def init_manager_def broker_admin_def)
  have mem2: "?t \<in> set [?t]" by simp
  have only2: "\<forall>u\<in>set [?t]. config_name u = config_name ?t \<longrightarrow> u = ?t" by simp
  have actual2: "map_of (map (\<lambda>n. (n, orders_broker n)) (map config_name [?t]))
                   (config_name ?t) = Some (Some orders_config)"
    by (simp add: orders_retention_2000_def TopicConfig_def orders_broker_def)
  have g1: "config_name orders_config = config_name ?t"
    and g2: "num_partitions orders_config = num_partitions ?t"
    and g3: "replication_factor orders_config = replication_factor ?t"
    by (simp_all add: orders_retention_2000_def orders_config_def TopicConfig_def)
  have v1: "extra_config orders_config ''retention.ms'' = Some ''1000''"
    by (simp add: orders_config_def TopicConfig_def)
  have v2: "extra_config ?t ''retention.ms'' = Some ''2000''"
    by (simp add: orders_retention_2000_def TopicConfig_def)
  have differs: "extra_config orders_config |` dom (extra_config ?t) \<noteq> extra_config ?t"
  proof
    assume "extra_config orders_config |` dom (extra_config ?t) = extra_config ?t"
    then have "(extra_config orders_config |` dom (extra_config ?t)) ''retention.ms''
               = extra_config ?t ''retention.ms''"
      by (rule arg_cong)
    then show False
      by (simp add: orders_retention_2000_def orders_config_def TopicConfig_def)
  qed
  note inst2 = validate_undeclared_key_not_flagged [OF inspect2 mem2 only2 actual2 g1 g2 g3]
  from inst2 have part2: "validate_topics orders_manager (Configs [?t]) (Some ''required'') = Inr ()"
    by blast
  from inst2 differs have part3: "\<exists>a. validate_topics orders_manager (Configs [?t]) (Some ''all'')
          = Inl (TopicValidationError [(''orders'', Mismatch ?t a)])"
    by (auto simp: orders_retention_2000_def TopicConfig_def)
  have c1: "extra_config orders_config ''cleanup.policy'' = Some ''delete''"
    by (simp add: orders_config_def TopicConfig_def)
  have c2: "extra_config orders_expected ''cleanup.policy'' = None"
    by (simp add: orders_expected_def TopicConfig_def)
  from part1 c1 c2 v1 v2 part2 part3 show ?thesis
    by blast
qed


subsection \<open>The apply step of the dataframe\<close>

text \<open>
  Claim C6. Take a row whose value is a mapping, and a user function that returns
  \<open>result\<close> on it and leaves the value (the same object, so still a mapping) as \<open>v\<close>.
  The step keeps the row with the value as the function left it when the result is
  \<open>None\<close>; it replaces the row's value by the result when that is a mapping; for a list
  it returns one clone of the row per element when \<open>expand\<close> is set and raises
  \<open>InvalidApplyResultType\<close> when it is not; for a result of any other type it raises
  \<open>InvalidApplyResultType\<close>.
\<close>

theorem apply_row_contract:
  assumes "is_dict (row_value r)"
    and "func (row_value r) = Inr (v, result)"
    and "is_dict v"
  shows "(result = PNone \<longrightarrow> apply_row r func expand = Inr (Single (r\<lparr>row_value := v\<rparr>))) \<and>
         (\<forall>d. result = PDict d \<longrightarrow>
              apply_row r func expand = Inr (Single (r\<lparr>row_value := PDict d\<rparr>))) \<and>
         (\<forall>xs. result = PList xs \<longrightarrow>
              apply_row r func expand =
                (if expand then Inr (Branch (map (\<lambda>x. r\<lparr>row_value := x\<rparr>) xs))
                 else Inl InvalidApplyResultType)) \<and>
         (result \<noteq> PNone \<and> \<not> is_dict result \<and> \<not> is_list result \<longrightarrow>
              apply_row r func expand = Inl InvalidApplyResultType)"
  using assms
  by (cases result) (auto simp: apply_row_def row_clone_def Let_def)

theorem apply_row_contract_witness:
  "apply_row sample_row fn_in_place False
     = Inr (Single (sample_row\<lparr>row_value := PDict [(''x'', PInt 6)]\<rparr>)) \<and>
   apply_row sample_row fn_dict False
     = Inr (Single (sample_row\<lparr>row_value := PDict [(''y'', PInt 1)]\<rparr>)) \<and>
   apply_row sample_row fn_list True
     = Inr (Branch [sample_row\<lparr>row_value := PDict [(''a'', PInt 1)]\<rparr>,
                    sample_row\<lparr>row_value := PDict [(''a'', PInt 2)]\<rparr>]) \<and>
   apply_row sample_row fn_list False = Inl InvalidApplyResultType \<and>
   apply_row sample_row fn_int True = Inl InvalidApplyResultType"
proof -
  have d: "is_dict (row_value sample_row)"
    by (simp add: sample_row_def)
  have a: "fn_in_place (row_value sample_row) = Inr (PDict [(''x'', PInt 6)], PNone)"
    by (simp add: fn_in_place_def)
  have b: "fn_dict (row_value sample_row) = Inr (row_value sample_row, PDict [(''y'', PInt 1)])"
    by (simp add: fn_dict_def)
  have c: "fn_list (row_value sample_row)
           = Inr (row_value sample_row, PList [PDict [(''a'', PInt 1)], PDict [(''a'', PInt 2)]])"
    by (simp add: fn_list_def)
  have e: "fn_int (row_value sample_row) = Inr (row_value sample_row, PInt 3)"
    by (simp add: fn_int_def)
  have d6: "is_dict (PDict [(''x'', PInt 6)])" by simp
  from apply_row_contract [where r = sample_row and func = fn_in_place and expand = False, OF d a d6]
  have 1: "apply_row sample_row fn_in_place False
             = Inr (Single (sample_row\<lparr>row_value := PDict [(''x'', PInt 6)]\<rparr>))"
    by simp
  from apply_row_contract [where r = sample_row and func = fn_dict and expand = False, OF d b d]
  have 2: "apply_row sample_row fn_dict False
             = Inr (Single (sample_row\<lparr>row_value := PDict [(''y'', PInt 1)]\<rparr>))"
    by simp
  from apply_row_contract [where r = sample_row and func = fn_list and expand = True, OF d c d]
  have 3: "apply_row sample_row fn_list True
     = Inr (Branch [sample_row\<lparr>row_value := PDict [(''a'', PInt 1)]\<rparr>,
                    sample_row\<lparr>row_value := PDict [(''a'', PInt 2)]\<rparr>])"
    by simp
  from apply_row_contract [where r = sample_row and func = fn_list and expand = False, OF d c d]
  have 4: "apply_row sample_row fn_list False = Inl InvalidApplyResultType"
    by simp
  from apply_row_contract [where r = sample_row and func = fn_int and expand = True, OF d e d]
  have 5: "apply_row sample_row fn_int True = Inl InvalidApplyResultType"
    by simp
  from 1 2 3 4 5 show ?thesis by blast
qed

subsection \<open>Cloned pipelines\<close>

text \<open>
  Claim C8, about \<open>Pipeline\<close> as modelled from the spec. Step \<open>A\<close> is appended to a
  pipeline \<open>p\<close>, the pipeline is cloned to \<open>q\<close>, then \<open>C\<close> is appended to \<open>p\<close> and \<open>B\<close> to
  \<open>q\<close>. Afterwards the chain of \<open>p\<close> is its earlier chain followed by \<open>A\<close>, \<open>C\<close>, the
  chain of \<open>q\<close> the earlier chain followed by \<open>A\<close>, \<open>B\<close>, processing a row runs exactly
  these chains, and appending a further step to one of the two leaves the other's
  chain as it is.
\<close>

theorem pipeline_clone_independent:
  assumes valid: "p < length h"
    and built: "h1 = pipeline_apply h p A"
    and cloned: "pipeline_clone h1 p = (q, h2)"
    and orig: "h3 = pipeline_apply h2 p C"
    and clone: "h4 = pipeline_apply h3 q B"
  shows "steps (h4 ! p) = steps (h ! p) @ [A, C] \<and>
         steps (h4 ! q) = steps (h ! p) @ [A, B] \<and>
         pipeline_process h4 p r = run_steps (steps (h ! p) @ [A, C]) r \<and>
         pipeline_process h4 q r = run_steps (steps (h ! p) @ [A, B]) r \<and>
         (\<forall>f. steps (pipeline_apply h4 p f ! q) = steps (h4 ! q)) \<and>
         (\<forall>f. steps (pipeline_apply h4 q f ! p) = steps (h4 ! p))"
proof -
  have q: "q = length h" and h2: "h2 = h1 @ [h1 ! p]"
    using cloned built by (auto simp: pipeline_clone_def pipeline_apply_def)
  have len1: "length h1 = length h" using built by (simp add: pipeline_apply_def)
  have pq: "p \<noteq> q" using valid q by simp
  have s1: "steps (h1 ! p) = steps (h ! p) @ [A]"
    using valid built by (simp add: pipeline_apply_def)
  have sp: "steps (h4 ! p) = steps (h ! p) @ [A, C]"
    using valid pq q len1 s1 by (simp add: clone orig h2 pipeline_apply_def nth_append)
  have sq: "steps (h4 ! q) = steps (h ! p) @ [A, B]"
    using valid pq q len1 s1 by (simp add: clone orig h2 pipeline_apply_def nth_append)
  have len4: "length h4 = Suc (length h)"
    using len1 by (simp add: clone orig h2 pipeline_apply_def)
  have ind1: "steps (pipeline_apply h4 p f ! q) = steps (h4 ! q)" for f
    using pq len4 q by (simp add: pipeline_apply_def)
  have ind2: "steps (pipeline_apply h4 q f ! p) = steps (h4 ! p)" for f
    using pq len4 valid by (simp add: pipeline_apply_def)
  from sp sq ind1 ind2 show ?thesis
    by (simp add: pipeline_process_def)
qed


theorem pipeline_clone_independent_witness:
  "pipeline_process branched_heap 0 sample_row
     = Inr (Single (sample_row\<lparr>row_headers := [(''A'', []), (''C'', [])]\<rparr>)) \<and>
   pipeline_process branched_heap 1 sample_row
     = Inr (Single (sample_row\<lparr>row_headers := [(''A'', []), (''B'', [])]\<rparr>))"
proof -
  let ?h = "[\<lparr>pipeline_name = ''df'', steps = []\<rparr>]"
  let ?h1 = "pipeline_apply ?h 0 (mark ''A'')"
  let ?h2 = "?h1 @ [?h1 ! 0]"
  let ?h3 = "pipeline_apply ?h2 0 (mark ''C'')"
  let ?h4 = "pipeline_apply ?h3 1 (mark ''B'')"
  have valid: "0 < length ?h" by simp
  have cloned: "pipeline_clone ?h1 0 = (1, ?h2)"
    by (simp add: pipeline_clone_def pipeline_apply_def)
  have bh: "branched_heap = ?h4"
    by (simp add: branched_heap_def pipeline_new_def pipeline_clone_def pipeline_apply_def)
  from pipeline_clone_independent [OF valid refl cloned refl refl, of "mark ''C''" "mark ''B''" sample_row]
  have "pipeline_process ?h4 0 sample_row = run_steps [mark ''A'', mark ''C''] sample_row \<and>
        pipeline_process ?h4 1 sample_row = run_steps [mark ''A'', mark ''B''] sample_row"
    by simp
  then show ?thesis
    by (simp add: bh mark_def sample_row_def)
qed

text \<open>
  \<open>StreamingDataFrame.apply\<close> of the Python client appends to a clone: the dataframe it
  returns has its own pipeline, the chain of the original followed by the new step, and
  the original's chain is unchanged.
\<close>

lemma sdf_apply_leaves_original:
  assumes "sdf_pipeline df < length h"
    and "sdf_apply h fresh df f = Inr (df', h')"
  shows "steps (h' ! sdf_pipeline df) = steps (h ! sdf_pipeline df) \<and>
         steps (h' ! sdf_pipeline df') = steps (h ! sdf_pipeline df) @ [f] \<and>
         sdf_pipeline df' \<noteq> sdf_pipeline df"
  using assms
  by (auto simp: sdf_apply_def sdf_clone_def sdf_init_def sdf_apply_priv_def pipeline_clone_def
                 pipeline_apply_def Let_def nth_append
           split: sum.splits if_splits prod.splits)


subsection \<open>The name of a changelog topic\<close>

lemma format_changelog_name_example:
  "format_changelog_name ''group1'' ''orders'' ''default'' = ''changelog__group1--orders--default''"
  by (simp add: format_changelog_name_def)

text \<open>
  Claim C1. The name that \<open>_format_changelog_name\<close> builds for a consumer group \<open>g\<close>, a
  source topic \<open>s\<close> and a suffix \<open>x\<close> is \<open>changelog__g--s--x\<close>, and every \<open>Topic\<close> that
  \<open>changelog_topic(s, x, g)\<close> returns has exactly this name, whatever the manager, its
  admin client's answer and the import set are: the name depends on \<open>(g, s, x)\<close> only.
\<close>

theorem changelog_topic_name:
  "format_changelog_name g s x = ''changelog__'' @ g @ ''--'' @ s @ ''--'' @ x \<and>
   (\<forall>tm cfg S' t tm'.
      changelog_topic tm s x g cfg = (S', Inr (t, tm')) \<longrightarrow>
      name t = ''changelog__'' @ g @ ''--'' @ s @ ''--'' @ x)"
  by (auto simp: changelog_topic_def format_changelog_name_def Let_def
           split: sum.splits option.splits prod.splits)

theorem changelog_topic_name_witness:
  "\<exists>S t tm'.
     changelog_topic (init_manager (broker_admin orders_broker) 60)
       ''orders'' ''default'' ''group1'' None = (S, Inr (t, tm')) \<and>
     name t = ''changelog__group1--orders--default''"
proof -
  have "\<exists>S t tm'.
     changelog_topic (init_manager (broker_admin orders_broker) 60)
       ''orders'' ''default'' ''group1'' None = (S, Inr (t, tm'))"
    by (simp add: changelog_defs example_defs)
  then obtain S t tm' where
    eq: "changelog_topic (init_manager (broker_admin orders_broker) 60)
           ''orders'' ''default'' ''group1'' None = (S, Inr (t, tm'))"
    by blast
  from changelog_topic_name [of "''group1''" "''orders''" "''default''"] eq
  have "name t = ''changelog__'' @ ''group1'' @ ''--'' @ ''orders'' @ ''--'' @ ''default''"
    by blast
  then have "name t = ''changelog__group1--orders--default''"
    by simp
  with eq show ?thesis
    by blast
qed

subsection \<open>The source topic of a changelog topic\<close>

text \<open>
  When the broker has no such topic and the registered topic has no configuration,
  \<open>changelog_topic\<close> raises its own exception.
\<close>

lemma changelog_topic_null_config:
  assumes "admin_inspect_topics (priv_admin_client tm) [s] = Inr response"
    and "response s = Some None"
    and "map_of (priv_topics tm) s = Some t"
    and "topic_config t = None"
  shows "snd (changelog_topic tm s x g cfg)
         = Inl (MissingTopicForChangelog s (format_changelog_name g s x))"
  using assms by (simp add: changelog_topic_def source_topic_config_def Let_def)

text \<open>
  When the broker has no such topic and no topic of that name was registered, the
  subscript \<open>self._topics[source_topic_name]\<close> raises \<open>KeyError\<close> before the check that
  raises \<open>MissingTopicForChangelog\<close> is reached.
\<close>

lemma changelog_topic_undeclared:
  assumes "admin_inspect_topics (priv_admin_client tm) [s] = Inr response"
    and "response s = Some None"
    and "map_of (priv_topics tm) s = None"
  shows "snd (changelog_topic tm s x g cfg) = Inl (KeyError s)"
  using assms by (simp add: changelog_topic_def source_topic_config_def Let_def)

text \<open>
  Claim C4, at the input where the code leaves it: on a manager with no registered
  topic, and a broker without the topic \<open>orders\<close> (the admin answers \<open>None\<close> for it),
  \<open>changelog_topic("orders", "default", "group1")\<close> raises \<open>KeyError\<close>, not
  \<open>MissingTopicForChangelog\<close>.
\<close>

theorem changelog_topic_undeclared_source_raises_key_error:
  "snd (changelog_topic (init_manager (broker_admin empty_broker) 60)
          ''orders'' ''default'' ''group1'' None) = Inl (KeyError ''orders'')"
  by (simp add: changelog_defs example_defs)

subsection \<open>Compaction of changelog topics\<close>

text \<open>
  Claim C5. Whatever set \<open>configs_to_import\<close> the caller gives, the set used for the
  import does not hold \<open>cleanup.policy\<close>, and the configuration of every \<open>Topic\<close> that
  \<open>changelog_topic\<close> returns has the extra setting \<open>cleanup.policy\<close> equal to \<open>compact\<close>.
\<close>

theorem changelog_topic_compacted:
  "changelog_topic tm s x g cfg = (S', Inr (t, tm')) \<Longrightarrow>
   ''cleanup.policy'' \<notin> import_set cfg \<and>
   (\<exists>c. topic_config t = Some c \<and> extra_config c ''cleanup.policy'' = Some ''compact'')"
  by (auto simp: changelog_defs changelog_extra_config_defaults_def map_add_def
                 restrict_map_def
           split: sum.splits option.splits prod.splits)

theorem changelog_topic_compacted_witness:
  "\<exists>S t tm' c.
     changelog_topic (init_manager (broker_admin orders_broker) 60)
       ''orders'' ''default'' ''group1'' (Some {''cleanup.policy'', ''retention.ms''})
       = (S, Inr (t, tm')) \<and>
     extra_config orders_config ''cleanup.policy'' = Some ''delete'' \<and>
     topic_config t = Some c \<and> extra_config c ''cleanup.policy'' = Some ''compact''"
proof -
  have "\<exists>S t tm'.
     changelog_topic (init_manager (broker_admin orders_broker) 60)
       ''orders'' ''default'' ''group1'' (Some {''cleanup.policy'', ''retention.ms''})
       = (S, Inr (t, tm'))"
    by (simp add: changelog_defs example_defs)
  then obtain S t tm' where
    eq: "changelog_topic (init_manager (broker_admin orders_broker) 60)
           ''orders'' ''default'' ''group1'' (Some {''cleanup.policy'', ''retention.ms''})
           = (S, Inr (t, tm'))"
    by blast
  from changelog_topic_compacted [OF eq] obtain c where
    "topic_config t = Some c" and "extra_config c ''cleanup.policy'' = Some ''compact''"
    by blast
  moreover have "extra_config orders_config ''cleanup.policy'' = Some ''delete''"
    by (simp add: orders_config_def TopicConfig_def)
  ultimately show ?thesis
    using eq by blast
qed

subsection \<open>The caller's import set\<close>

text \<open>
  Claim C9. When the caller passes a set \<open>S\<close> that holds \<open>cleanup.policy\<close>, the caller's
  own set object is \<open>S\<close> without \<open>cleanup.policy\<close> after the call, whether the call
  returns or raises: the \<open>discard\<close> works on the argument itself.
\<close>

theorem changelog_topic_mutates_import_set:
  "''cleanup.policy'' \<in> S \<Longrightarrow>
   fst (changelog_topic tm s x g (Some S)) = Some (S - {''cleanup.policy''}) \<and>
   (\<forall>S'. fst (changelog_topic tm s x g (Some S)) = Some S' \<longrightarrow> ''cleanup.policy'' \<notin> S')"
  by (auto simp: changelog_topic_def caller_set_after_def Let_def)

theorem changelog_topic_mutates_import_set_witness:
  "''cleanup.policy'' \<in> {''cleanup.policy'', ''retention.ms''} \<and>
   fst (changelog_topic (init_manager (broker_admin orders_broker) 60)
          ''orders'' ''default'' ''group1'' (Some {''cleanup.policy'', ''retention.ms''}))
   = Some {''retention.ms''}"
proof -
  have h: "''cleanup.policy'' \<in> {''cleanup.policy'', ''retention.ms''}"
    by simp
  have "{''cleanup.policy'', ''retention.ms''} - {''cleanup.policy''} = {''retention.ms''}"
    by auto
  with changelog_topic_mutates_import_set [OF h] h show ?thesis
    by simp
qed

end
